theory Spec2Isabelle
  imports Complex_Main
begin

section \<open>Python values, errors and attribute dictionaries\<close>

text \<open>
  The exporter \<^verbatim>\<open>graph_to_json\<close> of \<^verbatim>\<open>scripts/osm_graph_loader.py\<close> reads
  attribute dictionaries whose values are dynamically typed.  A value is one of the
  shapes the code inspects with \<^verbatim>\<open>isinstance\<close> or by attribute access: \<^verbatim>\<open>None\<close>,
  a \<^verbatim>\<open>bool\<close>, an \<^verbatim>\<open>int\<close>, a \<^verbatim>\<open>float\<close> (idealised as a real number: no rounding,
  no NaN, no infinities), a \<^verbatim>\<open>str\<close>, a \<^verbatim>\<open>list\<close>, a shapely \<^verbatim>\<open>LineString\<close> (given
  by its \<^verbatim>\<open>coords\<close>, a sequence of (lon, lat) pairs, possibly empty; coordinates with
  a third component, which the unpacking of source line 235 rejects, are left out), or
  an instance of some other class named by a string, which has no \<^verbatim>\<open>coords\<close>, is no
  number and has no JSON encoding.
\<close>

datatype pyval =
    PNone
  | PBool bool
  | PInt int
  | PFloat real
  | PStr string
  | PList "pyval list"
  | PLineString "(real \<times> real) list"
  | PObject string

text \<open>The exceptions that the modelled code can raise; \<open>Inl\<close> of a sum is a raise.\<close>

datatype py_error = KeyError | AttributeError | TypeError | ValueError | OSError

type_synonym attrs = "string \<rightharpoonup> pyval"

text \<open>\<^verbatim>\<open>data.get(key, default)\<close>\<close>

definition dict_get :: "attrs \<Rightarrow> string \<Rightarrow> pyval \<Rightarrow> pyval" where
  "dict_get data k dflt = (case data k of None \<Rightarrow> dflt | Some v \<Rightarrow> v)"

text \<open>\<^verbatim>\<open>data[key]\<close>, which raises \<^verbatim>\<open>KeyError\<close> on a missing key.\<close>

definition dict_item :: "attrs \<Rightarrow> string \<Rightarrow> py_error + pyval" where
  "dict_item data k = (case data k of None \<Rightarrow> Inl KeyError | Some v \<Rightarrow> Inr v)"

section \<open>Strings\<close>

text \<open>\<^verbatim>\<open>str(n)\<close> for an integer, as the f-strings of the identifiers format it.\<close>

definition digit_char :: "nat \<Rightarrow> char" where
  "digit_char d = ''0123456789'' ! d"

fun str_nat :: "nat \<Rightarrow> string" where
  "str_nat n = (if n < 10 then [digit_char n] else str_nat (n div 10) @ [digit_char (n mod 10)])"

declare str_nat.simps [simp del]

definition str_int :: "int \<Rightarrow> string" where
  "str_int i = (if i < 0 then CHR ''-'' # str_nat (nat (- i)) else str_nat (nat i))"

text \<open>\<^verbatim>\<open>s.lower()\<close> on the ASCII letters, which are the only ones the one-way vocabulary has.\<close>

definition lower_char :: "char \<Rightarrow> char" where
  "lower_char c =
     (if 65 \<le> (of_char c :: nat) \<and> (of_char c :: nat) \<le> 90 then char_of ((of_char c :: nat) + 32) else c)"

definition lower :: "string \<Rightarrow> string" where
  "lower s = map lower_char s"

text \<open>\<^verbatim>\<open>s.split(sep)\<close> with a one-character separator: always at least one part.\<close>

fun split_on :: "char \<Rightarrow> string \<Rightarrow> string list" where
  "split_on sep [] = [[]]"
| "split_on sep (c # cs) =
     (if c = sep then [] # split_on sep cs
      else (case split_on sep cs of [] \<Rightarrow> [[c]] | p # ps \<Rightarrow> (c # p) # ps))"

section \<open>The graphs\<close>

text \<open>
  A networkx \<^verbatim>\<open>MultiDiGraph\<close> as the exporter reads it: \<^verbatim>\<open>G.nodes(data=True)\<close> is the
  list of (node id, attributes) in iteration order, \<^verbatim>\<open>G.edges(keys=True, data=True)\<close>
  the list of (u, v, key, attributes).  Node identifiers and edge keys are integers,
  as OSM and networkx produce them (of a size that \<^verbatim>\<open>str\<close> converts: Python refuses
  integers of more than 4300 digits).
\<close>

type_synonym edge = "int \<times> int \<times> int \<times> attrs"

record graph =
  g_nodes :: "(int \<times> attrs) list"
  g_edges :: "edge list"

text \<open>\<^verbatim>\<open>G.nodes[u]\<close>, which raises \<^verbatim>\<open>KeyError\<close> for an unknown node.\<close>

definition node_attrs :: "graph \<Rightarrow> int \<Rightarrow> py_error + attrs" where
  "node_attrs G u = (case map_of (g_nodes G) u of None \<Rightarrow> Inl KeyError | Some a \<Rightarrow> Inr a)"

section \<open>The exported records\<close>

record node_rec =
  n_id :: string
  n_lat :: pyval
  n_lon :: pyval

record segment =
  seg_id :: string
  startNodeId :: string
  endNodeId :: string
  lengthMeters :: pyval
  seg_name :: pyval
  osmWayIds :: "pyval list"
  geometry :: "pyval list list"
  oneway :: bool

record full_edge =
  fe_u :: string
  fe_v :: string
  fe_length :: pyval

record json_doc =
  nodes :: "node_rec list"
  segments :: "segment list"
  startingLocation :: "node_rec option"
  fullGraphNodes :: "node_rec list"
  fullGraphEdges :: "full_edge list"

section \<open>Node projection\<close>

definition node_ref :: "int \<Rightarrow> string" where
  "node_ref node_id = ''node_'' @ str_int node_id"

definition project_node :: "int \<times> attrs \<Rightarrow> node_rec" where
  "project_node nd = (case nd of (node_id, data) \<Rightarrow>
     \<lparr> n_id = node_ref node_id,
       n_lat = dict_get data ''y'' (PFloat 0),
       n_lon = dict_get data ''x'' (PFloat 0) \<rparr>)"

definition project_nodes :: "graph \<Rightarrow> node_rec list" where
  "project_nodes G = map project_node (g_nodes G)"

section \<open>Edge canonicalisation\<close>

text \<open>\<^verbatim>\<open>tuple(sorted([u, v])) + (key,)\<close>\<close>

definition edge_id :: "int \<Rightarrow> int \<Rightarrow> int \<Rightarrow> int \<times> int \<times> int" where
  "edge_id u v key = (case sort [u, v] of [a, b] \<Rightarrow> (a, b, key) | _ \<Rightarrow> (u, v, key))"

definition edge_key :: "edge \<Rightarrow> int \<times> int \<times> int" where
  "edge_key e = (case e of (u, v, key, data) \<Rightarrow> edge_id u v key)"

text \<open>The geometry of an edge (source lines 231 to 243).\<close>

definition flip_coords :: "(real \<times> real) list \<Rightarrow> pyval list list" where
  "flip_coords coords = map (\<lambda>(lon, lat). [PFloat lat, PFloat lon]) coords"

definition edge_geometry :: "graph \<Rightarrow> int \<Rightarrow> int \<Rightarrow> attrs \<Rightarrow> py_error + pyval list list" where
  "edge_geometry G u v data =
     (case data ''geometry'' of
        Some g \<Rightarrow>
          (case g of
             PLineString coords \<Rightarrow> Inr (flip_coords coords)
           | _ \<Rightarrow> Inl AttributeError)
      | None \<Rightarrow>
          (case node_attrs G u of Inl e \<Rightarrow> Inl e | Inr start_node \<Rightarrow>
          (case node_attrs G v of Inl e \<Rightarrow> Inl e | Inr end_node \<Rightarrow>
          (case dict_item start_node ''y'' of Inl e \<Rightarrow> Inl e | Inr sy \<Rightarrow>
          (case dict_item start_node ''x'' of Inl e \<Rightarrow> Inl e | Inr sx \<Rightarrow>
          (case dict_item end_node ''y'' of Inl e \<Rightarrow> Inl e | Inr ey \<Rightarrow>
          (case dict_item end_node ''x'' of Inl e \<Rightarrow> Inl e | Inr ex \<Rightarrow>
             Inr [[sy, sx], [ey, ex]])))))))"

text \<open>The OSM way ids (source lines 245 to 248).\<close>

definition way_ids :: "attrs \<Rightarrow> pyval list" where
  "way_ids data =
     (let osm_ids = dict_get data ''osmid'' (PList [])
      in case osm_ids of PList ids \<Rightarrow> ids | _ \<Rightarrow> [osm_ids])"

text \<open>The street name (source lines 250 to 253); \<^verbatim>\<open>data.get('name')\<close> defaults to \<^verbatim>\<open>None\<close>.\<close>

definition street_name :: "attrs \<Rightarrow> pyval" where
  "street_name data =
     (let name = dict_get data ''name'' PNone
      in case name of
           PList names \<Rightarrow> (case names of [] \<Rightarrow> PNone | first # _ \<Rightarrow> first)
         | _ \<Rightarrow> name)"

text \<open>The one-way flag (source lines 258 to 272).\<close>

definition oneway_words :: "string list" where
  "oneway_words = [''yes'', ''true'', ''1'', ''-1'']"

definition oneway_item :: "pyval \<Rightarrow> bool" where
  "oneway_item ov =
     (case ov of
        PBool b \<Rightarrow> b
      | PStr s \<Rightarrow> lower s \<in> set oneway_words
      | _ \<Rightarrow> False)"

definition oneway_flag :: "attrs \<Rightarrow> bool" where
  "oneway_flag data =
     (let ow = dict_get data ''oneway'' (PBool False)
      in case ow of
           PList items \<Rightarrow> list_ex oneway_item items
         | PStr s \<Rightarrow> lower s \<in> set oneway_words
         | PBool b \<Rightarrow> b
         | _ \<Rightarrow> False)"

definition segment_ref :: "int \<Rightarrow> int \<Rightarrow> int \<Rightarrow> string" where
  "segment_ref u v key = ''seg_'' @ str_int u @ ''_'' @ str_int v @ ''_'' @ str_int key"

text \<open>The body of the edge loop after the duplicate check (source lines 230 to 283).\<close>

definition make_segment :: "graph \<Rightarrow> edge \<Rightarrow> py_error + segment" where
  "make_segment G e = (case e of (u, v, key, data) \<Rightarrow>
     (case edge_geometry G u v data of
        Inl err \<Rightarrow> Inl err
      | Inr geom \<Rightarrow>
          Inr \<lparr> seg_id = segment_ref u v key,
                startNodeId = node_ref u,
                endNodeId = node_ref v,
                lengthMeters = dict_get data ''length'' (PFloat 0),
                seg_name = street_name data,
                osmWayIds = way_ids data,
                geometry = geom,
                oneway = oneway_flag data \<rparr>))"

text \<open>
  The edge loop (source lines 222 to 283) with its two accumulators, the set
  \<^verbatim>\<open>seen_edges\<close> and the list \<^verbatim>\<open>segments\<close>.  An exception leaves the loop at once.
\<close>

fun edge_loop :: "graph \<Rightarrow> edge list \<Rightarrow> (int \<times> int \<times> int) set \<Rightarrow> segment list
    \<Rightarrow> py_error + segment list" where
  "edge_loop G [] seen_edges segs = Inr segs"
| "edge_loop G (e # es) seen_edges segs =
     (if edge_key e \<in> seen_edges then edge_loop G es seen_edges segs
      else (case make_segment G e of
              Inl err \<Rightarrow> Inl err
            | Inr s \<Rightarrow> edge_loop G es (insert (edge_key e) seen_edges) (segs @ [s])))"

definition build_segments :: "graph \<Rightarrow> py_error + segment list" where
  "build_segments G = edge_loop G (g_edges G) {} []"

section \<open>Starting location\<close>

text \<open>
  The arithmetic of \<^verbatim>\<open>sum\<close>, \<^verbatim>\<open>/\<close>, \<^verbatim>\<open>-\<close> and \<^verbatim>\<open>**\<close> on the numeric values (a
  \<^verbatim>\<open>bool\<close> counts as 0 or 1); any other operand raises \<^verbatim>\<open>TypeError\<close>.  Floats are
  idealised as reals.
\<close>

definition as_number :: "pyval \<Rightarrow> py_error + real" where
  "as_number pv =
     (case pv of
        PBool b \<Rightarrow> Inr (if b then 1 else 0)
      | PInt i \<Rightarrow> Inr (of_int i)
      | PFloat r \<Rightarrow> Inr r
      | _ \<Rightarrow> Inl TypeError)"

fun py_sum :: "real \<Rightarrow> pyval list \<Rightarrow> py_error + real" where
  "py_sum acc [] = Inr acc"
| "py_sum acc (pv # pvs) =
     (case as_number pv of Inl err \<Rightarrow> Inl err | Inr r \<Rightarrow> py_sum (acc + r) pvs)"

text \<open>The key of \<^verbatim>\<open>min\<close> (source line 292).\<close>

definition dist_key :: "real \<Rightarrow> real \<Rightarrow> node_rec \<Rightarrow> py_error + real" where
  "dist_key avg_lat avg_lon n =
     (case as_number (n_lat n) of Inl err \<Rightarrow> Inl err | Inr la \<Rightarrow>
     (case as_number (n_lon n) of Inl err \<Rightarrow> Inl err | Inr lo \<Rightarrow>
        Inr ((la - avg_lat)\<^sup>2 + (lo - avg_lon)\<^sup>2)))"

text \<open>
  \<^verbatim>\<open>min(items, key=f)\<close>: the first item is the candidate, and a later item replaces it
  only when its key is strictly smaller.
\<close>

fun min_loop :: "('a \<Rightarrow> py_error + real) \<Rightarrow> 'a \<Rightarrow> real \<Rightarrow> 'a list \<Rightarrow> py_error + 'a" where
  "min_loop f best best_key [] = Inr best"
| "min_loop f best best_key (x # xs) =
     (case f x of
        Inl err \<Rightarrow> Inl err
      | Inr k \<Rightarrow> if k < best_key then min_loop f x k xs else min_loop f best best_key xs)"

definition py_min :: "('a \<Rightarrow> py_error + real) \<Rightarrow> 'a list \<Rightarrow> py_error + 'a" where
  "py_min f items =
     (case items of
        [] \<Rightarrow> Inl ValueError
      | x # xs \<Rightarrow> (case f x of Inl err \<Rightarrow> Inl err | Inr k \<Rightarrow> min_loop f x k xs))"

text \<open>Source lines 285 to 300.\<close>

definition starting_location :: "node_rec list \<Rightarrow> py_error + node_rec option" where
  "starting_location ns =
     (if ns = [] then Inr None
      else
        (case py_sum 0 (map n_lat ns) of Inl err \<Rightarrow> Inl err | Inr sum_lat \<Rightarrow>
        (case py_sum 0 (map n_lon ns) of Inl err \<Rightarrow> Inl err | Inr sum_lon \<Rightarrow>
        (let avg_lat = sum_lat / real (length ns);
             avg_lon = sum_lon / real (length ns)
         in (case py_min (dist_key avg_lat avg_lon) ns of
               Inl err \<Rightarrow> Inl err
             | Inr starting_node \<Rightarrow>
                 Inr (Some \<lparr> n_id = n_id starting_node,
                             n_lat = n_lat starting_node,
                             n_lon = n_lon starting_node \<rparr>))))))"

section \<open>The exporter\<close>

definition full_graph_edge :: "edge \<Rightarrow> full_edge" where
  "full_graph_edge e = (case e of (u, v, key, data) \<Rightarrow>
     \<lparr> fe_u = node_ref u, fe_v = node_ref v, fe_length = dict_get data ''length'' (PFloat 0) \<rparr>)"

text \<open>\<^verbatim>\<open>graph_to_json(G_simplified, G_full=None)\<close>\<close>

definition graph_to_json :: "graph \<Rightarrow> graph option \<Rightarrow> py_error + json_doc" where
  "graph_to_json G_simplified G_full_arg =
     (let G_full = (case G_full_arg of None \<Rightarrow> G_simplified | Some g \<Rightarrow> g);
          ns = project_nodes G_simplified
      in (case build_segments G_simplified of Inl err \<Rightarrow> Inl err | Inr segs \<Rightarrow>
         (case starting_location ns of Inl err \<Rightarrow> Inl err | Inr start \<Rightarrow>
            Inr \<lparr> nodes = ns,
                  segments = segs,
                  startingLocation = start,
                  fullGraphNodes = project_nodes G_full,
                  fullGraphEdges = map full_graph_edge (g_edges G_full) \<rparr>)))"

section \<open>The command line program\<close>

text \<open>
  \<^verbatim>\<open>json.dump\<close> raises \<^verbatim>\<open>TypeError\<close> at the first value that has no JSON encoding;
  the values below are the ones it can encode.
\<close>

fun json_encodable :: "pyval \<Rightarrow> bool" where
  "json_encodable (PList pvs) = list_all json_encodable pvs"
| "json_encodable (PLineString coords) = False"
| "json_encodable (PObject cls) = False"
| "json_encodable pv = True"

definition node_encodable :: "node_rec \<Rightarrow> bool" where
  "node_encodable n = (json_encodable (n_lat n) \<and> json_encodable (n_lon n))"

definition segment_encodable :: "segment \<Rightarrow> bool" where
  "segment_encodable s =
     (json_encodable (lengthMeters s) \<and> json_encodable (seg_name s) \<and>
      list_all json_encodable (osmWayIds s) \<and>
      list_all (list_all json_encodable) (geometry s))"

definition doc_encodable :: "json_doc \<Rightarrow> bool" where
  "doc_encodable d =
     (list_all node_encodable (nodes d) \<and>
      list_all segment_encodable (segments d) \<and>
      (case startingLocation d of None \<Rightarrow> True | Some n \<Rightarrow> node_encodable n) \<and>
      list_all node_encodable (fullGraphNodes d) \<and>
      list_all (\<lambda>fe. json_encodable (fe_length fe)) (fullGraphEdges d))"

text \<open>
  What a path of the file system holds: bytes that this program did not write, the
  complete JSON text of a document, or a proper prefix of that text, left behind when
  \<^verbatim>\<open>json.dump\<close> raised after \<^verbatim>\<open>open(path, 'w')\<close> had created or truncated the file.
\<close>

datatype file_data = Bytes string | JsonText json_doc | JsonPrefix json_doc

type_synonym filesystem = "string \<rightharpoonup> file_data"

record cli_args =
  osm_file :: string
  output_json :: string
  bbox_opt :: "string option"

text \<open>
  What \<^verbatim>\<open>main\<close> takes from outside the script: the builtin \<^verbatim>\<open>float\<close> (\<open>None\<close> is its
  \<^verbatim>\<open>ValueError\<close>), the graph loading of \<^verbatim>\<open>load_osm_graph\<close>, which rests on osmnx and
  pyrosm, and whether \<^verbatim>\<open>open(path, 'w')\<close> succeeds.
\<close>

record cli_env =
  py_float :: "string \<Rightarrow> real option"
  load_osm_graph :: "string \<Rightarrow> real list option \<Rightarrow> py_error + graph \<times> graph"
  can_open_w :: "string \<Rightarrow> bool"

text \<open>Source lines 344 to 352: \<open>Inl\<close> is the \<^verbatim>\<open>ValueError\<close> that ends in \<^verbatim>\<open>sys.exit(1)\<close>.\<close>

fun floats :: "(string \<Rightarrow> real option) \<Rightarrow> string list \<Rightarrow> py_error + real list" where
  "floats pf [] = Inr []"
| "floats pf (p # ps) =
     (case pf p of
        None \<Rightarrow> Inl ValueError
      | Some r \<Rightarrow> (case floats pf ps of Inl err \<Rightarrow> Inl err | Inr rs \<Rightarrow> Inr (r # rs)))"

definition parse_bbox :: "(string \<Rightarrow> real option) \<Rightarrow> string option \<Rightarrow> py_error + real list option" where
  "parse_bbox pf arg =
     (case arg of
        None \<Rightarrow> Inr None
      | Some s \<Rightarrow>
          if s = [] then Inr None
          else (case floats pf (split_on CHR '','' s) of
                  Inl err \<Rightarrow> Inl err
                | Inr bbox \<Rightarrow> if length bbox \<noteq> 4 then Inl ValueError else Inr (Some bbox)))"

text \<open>
  \<^verbatim>\<open>main\<close> after argument parsing: the exit status and the file system it leaves.
\<close>

definition main :: "cli_env \<Rightarrow> cli_args \<Rightarrow> filesystem \<Rightarrow> nat \<times> filesystem" where
  "main env args fs =
     (case parse_bbox (py_float env) (bbox_opt args) of
        Inl err \<Rightarrow> (1, fs)
      | Inr bbox \<Rightarrow>
          if fs (osm_file args) = None then (1, fs)
          else
            (case load_osm_graph env (osm_file args) bbox of
               Inl err \<Rightarrow> (1, fs)
             | Inr (G_simplified, G_full) \<Rightarrow>
                 (case graph_to_json G_simplified (Some G_full) of
                    Inl err \<Rightarrow> (1, fs)
                  | Inr result \<Rightarrow>
                      if \<not> can_open_w env (output_json args) then (1, fs)
                      else if doc_encodable result
                        then (0, fs(output_json args \<mapsto> JsonText result))
                        else (1, fs(output_json args \<mapsto> JsonPrefix result)))))"

section \<open>Notions used to state the properties\<close>

text \<open>
  The canonical key of an emitted segment, read back from its identifier
  \<^verbatim>\<open>seg_{u}_{v}_{key}\<close>: the sorted endpoint pair and the disambiguating key.
\<close>

definition digit_val :: "char \<Rightarrow> nat" where
  "digit_val c = of_char c - 48"

definition nat_of_str :: "string \<Rightarrow> nat" where
  "nat_of_str s = foldl (\<lambda>acc c. 10 * acc + digit_val c) 0 s"

definition int_of_str :: "string \<Rightarrow> int" where
  "int_of_str s =
     (case s of
        [] \<Rightarrow> 0
      | c # cs \<Rightarrow> if c = CHR ''-'' then - int (nat_of_str cs) else int (nat_of_str s))"

definition segment_key :: "segment \<Rightarrow> (int \<times> int \<times> int) option" where
  "segment_key s =
     (case split_on CHR ''_'' (seg_id s) of
        [p, a, b, c] \<Rightarrow>
          if p = ''seg'' then Some (edge_id (int_of_str a) (int_of_str b) (int_of_str c)) else None
      | _ \<Rightarrow> None)"

text \<open>
  The values that Python's arithmetic accepts as numbers, the number such a value
  stands for, and, in the words of the specification, the squared Euclidean distance in
  (lat, lon) space of a node to the arithmetic-mean centroid of a node list.
\<close>

definition numeric :: "pyval \<Rightarrow> bool" where
  "numeric pv = (case pv of PBool b \<Rightarrow> True | PInt i \<Rightarrow> True | PFloat r \<Rightarrow> True | _ \<Rightarrow> False)"

definition number_of :: "pyval \<Rightarrow> real" where
  "number_of pv =
     (case pv of PBool b \<Rightarrow> (if b then 1 else 0) | PInt i \<Rightarrow> of_int i | PFloat r \<Rightarrow> r | _ \<Rightarrow> 0)"

definition centroid_sq_dist :: "node_rec list \<Rightarrow> node_rec \<Rightarrow> real" where
  "centroid_sq_dist ns n =
     (number_of (n_lat n) - (\<Sum>m\<leftarrow>ns. number_of (n_lat m)) / real (length ns))\<^sup>2 +
     (number_of (n_lon n) - (\<Sum>m\<leftarrow>ns. number_of (n_lon m)) / real (length ns))\<^sup>2"

text \<open>
  The edges that the edge transform converts without raising, and the nodes whose
  projected coordinates are numbers.
\<close>

definition edge_convertible :: "graph \<Rightarrow> edge \<Rightarrow> bool" where
  "edge_convertible G e = (case e of (u, v, key, data) \<Rightarrow>
     (case data ''geometry'' of
        Some g \<Rightarrow> (case g of PLineString coords \<Rightarrow> True | _ \<Rightarrow> False)
      | None \<Rightarrow>
          (case (map_of (g_nodes G) u, map_of (g_nodes G) v) of
             (Some start_node, Some end_node) \<Rightarrow>
               start_node ''y'' \<noteq> None \<and> start_node ''x'' \<noteq> None \<and>
               end_node ''y'' \<noteq> None \<and> end_node ''x'' \<noteq> None
           | _ \<Rightarrow> False)))"

definition node_numeric :: "int \<times> attrs \<Rightarrow> bool" where
  "node_numeric nd = (case nd of (node_id, data) \<Rightarrow>
     (case data ''y'' of None \<Rightarrow> True | Some pv \<Rightarrow> numeric pv) \<and>
     (case data ''x'' of None \<Rightarrow> True | Some pv \<Rightarrow> numeric pv))"

section \<open>Example inputs\<close>

text \<open>
  The scenario of the specification: three nodes at (0,0), (0,2) and (2,0), and one pair
  of opposite directed edges of length 10 between the first two, without geometry.
\<close>

definition scenario_graph :: graph where
  "scenario_graph =
     \<lparr> g_nodes = [(1, [''y'' \<mapsto> PFloat 0, ''x'' \<mapsto> PFloat 0]),
                  (2, [''y'' \<mapsto> PFloat 0, ''x'' \<mapsto> PFloat 2]),
                  (3, [''y'' \<mapsto> PFloat 2, ''x'' \<mapsto> PFloat 0])],
       g_edges = [(1, 2, 0, [''length'' \<mapsto> PFloat 10]),
                  (2, 1, 0, [''length'' \<mapsto> PFloat 10])] \<rparr>"

definition scenario_doc :: json_doc where
  "scenario_doc =
     \<lparr> nodes = [\<lparr> n_id = ''node_1'', n_lat = PFloat 0, n_lon = PFloat 0 \<rparr>,
                \<lparr> n_id = ''node_2'', n_lat = PFloat 0, n_lon = PFloat 2 \<rparr>,
                \<lparr> n_id = ''node_3'', n_lat = PFloat 2, n_lon = PFloat 0 \<rparr>],
       segments = [\<lparr> seg_id = ''seg_1_2_0'', startNodeId = ''node_1'', endNodeId = ''node_2'',
                     lengthMeters = PFloat 10, seg_name = PNone, osmWayIds = [],
                     geometry = [[PFloat 0, PFloat 0], [PFloat 0, PFloat 2]], oneway = False \<rparr>],
       startingLocation = Some \<lparr> n_id = ''node_1'', n_lat = PFloat 0, n_lon = PFloat 0 \<rparr>,
       fullGraphNodes = [\<lparr> n_id = ''node_1'', n_lat = PFloat 0, n_lon = PFloat 0 \<rparr>,
                         \<lparr> n_id = ''node_2'', n_lat = PFloat 0, n_lon = PFloat 2 \<rparr>,
                         \<lparr> n_id = ''node_3'', n_lat = PFloat 2, n_lon = PFloat 0 \<rparr>],
       fullGraphEdges = [\<lparr> fe_u = ''node_1'', fe_v = ''node_2'', fe_length = PFloat 10 \<rparr>,
                         \<lparr> fe_u = ''node_2'', fe_v = ''node_1'', fe_length = PFloat 10 \<rparr>] \<rparr>"

text \<open>
  One physical link stored in both directions with different attributes, and the same
  graph with the two directed edges iterated in the other order.
\<close>

definition up_attrs :: attrs where
  "up_attrs = [''length'' \<mapsto> PFloat 10, ''name'' \<mapsto> PStr ''Up'', ''oneway'' \<mapsto> PBool True,
               ''osmid'' \<mapsto> PInt 7]"

definition down_attrs :: attrs where
  "down_attrs = [''length'' \<mapsto> PFloat 12, ''name'' \<mapsto> PStr ''Down'', ''oneway'' \<mapsto> PStr ''no'',
                 ''osmid'' \<mapsto> PList [PInt 8, PInt 9]]"

definition link_nodes :: "(int \<times> attrs) list" where
  "link_nodes = [(1, [''y'' \<mapsto> PFloat 1, ''x'' \<mapsto> PFloat 5]),
                 (2, [''y'' \<mapsto> PFloat 3, ''x'' \<mapsto> PFloat 7])]"

definition link_up_first :: graph where
  "link_up_first = \<lparr> g_nodes = link_nodes, g_edges = [(1, 2, 0, up_attrs), (2, 1, 0, down_attrs)] \<rparr>"

definition link_down_first :: graph where
  "link_down_first = \<lparr> g_nodes = link_nodes, g_edges = [(2, 1, 0, down_attrs), (1, 2, 0, up_attrs)] \<rparr>"

definition up_segment :: segment where
  "up_segment =
     \<lparr> seg_id = ''seg_1_2_0'', startNodeId = ''node_1'', endNodeId = ''node_2'',
       lengthMeters = PFloat 10, seg_name = PStr ''Up'', osmWayIds = [PInt 7],
       geometry = [[PFloat 1, PFloat 5], [PFloat 3, PFloat 7]], oneway = True \<rparr>"

definition down_segment :: segment where
  "down_segment =
     \<lparr> seg_id = ''seg_2_1_0'', startNodeId = ''node_2'', endNodeId = ''node_1'',
       lengthMeters = PFloat 12, seg_name = PStr ''Down'', osmWayIds = [PInt 8, PInt 9],
       geometry = [[PFloat 3, PFloat 7], [PFloat 1, PFloat 5]], oneway = False \<rparr>"

definition link_projection :: "node_rec list" where
  "link_projection = [\<lparr> n_id = ''node_1'', n_lat = PFloat 1, n_lon = PFloat 5 \<rparr>,
                      \<lparr> n_id = ''node_2'', n_lat = PFloat 3, n_lon = PFloat 7 \<rparr>]"

definition link_doc :: "segment \<Rightarrow> full_edge list \<Rightarrow> json_doc" where
  "link_doc s fes =
     \<lparr> nodes = link_projection,
       segments = [s],
       startingLocation = Some \<lparr> n_id = ''node_1'', n_lat = PFloat 1, n_lon = PFloat 5 \<rparr>,
       fullGraphNodes = link_projection,
       fullGraphEdges = fes \<rparr>"

definition up_full_edge :: full_edge where
  "up_full_edge = \<lparr> fe_u = ''node_1'', fe_v = ''node_2'', fe_length = PFloat 10 \<rparr>"

definition down_full_edge :: full_edge where
  "down_full_edge = \<lparr> fe_u = ''node_2'', fe_v = ''node_1'', fe_length = PFloat 12 \<rparr>"

text \<open>The same two nodes with one edge, under several attribute dictionaries.\<close>

definition one_edge_graph :: "attrs \<Rightarrow> graph" where
  "one_edge_graph data = \<lparr> g_nodes = link_nodes, g_edges = [(1, 2, 0, data)] \<rparr>"

definition plain_segment :: segment where
  "plain_segment =
     \<lparr> seg_id = ''seg_1_2_0'', startNodeId = ''node_1'', endNodeId = ''node_2'',
       lengthMeters = PFloat 0, seg_name = PNone, osmWayIds = [],
       geometry = [[PFloat 1, PFloat 5], [PFloat 3, PFloat 7]], oneway = False \<rparr>"

definition plain_full_edge :: full_edge where
  "plain_full_edge = \<lparr> fe_u = ''node_1'', fe_v = ''node_2'', fe_length = PFloat 0 \<rparr>"

definition curved_attrs :: attrs where
  "curved_attrs = [''geometry'' \<mapsto> PLineString [(5, 1), (6, 2), (7, 3)]]"

definition empty_line_attrs :: attrs where
  "empty_line_attrs = [''geometry'' \<mapsto> PLineString []]"

definition set_osmid_attrs :: attrs where
  "set_osmid_attrs = [''osmid'' \<mapsto> PObject ''set'']"

definition mixed_oneway_attrs :: attrs where
  "mixed_oneway_attrs = [''oneway'' \<mapsto> PList [PBool True, PBool False]]"

text \<open>Two nodes without coordinate attributes, joined by an edge without geometry.\<close>

definition bare_graph :: graph where
  "bare_graph = \<lparr> g_nodes = [(1, Map.empty), (2, Map.empty)], g_edges = [(1, 2, 0, Map.empty)] \<rparr>"

text \<open>A run of the program: the loader yields a graph whose way id has no JSON encoding.\<close>

definition example_env :: cli_env where
  "example_env =
     \<lparr> py_float = (\<lambda>s. None),
       load_osm_graph = (\<lambda>path bbox. Inr (one_edge_graph set_osmid_attrs, one_edge_graph set_osmid_attrs)),
       can_open_w = (\<lambda>path. True) \<rparr>"

definition example_args :: cli_args where
  "example_args = \<lparr> osm_file = ''map.osm'', output_json = ''out.json'', bbox_opt = None \<rparr>"

definition example_fs :: filesystem where
  "example_fs = [''map.osm'' \<mapsto> Bytes ''<osm/>'']"

section \<open>Auxiliary facts\<close>

subsection \<open>Identifiers can be read back\<close>

lemma edge_id_min_max: "edge_id u v key = (min u v, max u v, key)"
  by (simp add: edge_id_def min_def max_def)

lemma edge_id_commute: "edge_id v u key = edge_id u v key"
  by (simp add: edge_id_min_max min.commute max.commute)

lemma digit_cases:
  "d < 10 \<Longrightarrow> d = 0 \<or> d = 1 \<or> d = 2 \<or> d = 3 \<or> d = 4 \<or> d = 5 \<or> d = 6 \<or> d = 7 \<or> d = 8 \<or> d = (9::nat)"
  by arith

lemma digit_char_neq: "d < 10 \<Longrightarrow> digit_char d \<noteq> CHR ''_'' \<and> digit_char d \<noteq> CHR ''-''"
  by (drule digit_cases) (auto simp: digit_char_def)

lemma digit_val_digit_char: "d < 10 \<Longrightarrow> digit_val (digit_char d) = d"
  by (drule digit_cases) (auto simp: digit_char_def digit_val_def)

lemma nat_of_str_snoc: "nat_of_str (s @ [c]) = 10 * nat_of_str s + digit_val c"
  by (simp add: nat_of_str_def)

lemma nat_of_str_str_nat: "nat_of_str (str_nat n) = n"
proof (induction n rule: str_nat.induct)
  case (1 n)
  show ?case
  proof (cases "n < 10")
    case True
    then show ?thesis by (subst str_nat.simps) (simp add: nat_of_str_def digit_val_digit_char)
  next
    case False
    then have "nat_of_str (str_nat (n div 10)) = n div 10" using 1 by simp
    with False show ?thesis
      by (subst str_nat.simps) (simp add: nat_of_str_snoc digit_val_digit_char)
  qed
qed

lemma str_nat_chars: "c \<in> set (str_nat n) \<Longrightarrow> c \<noteq> CHR ''_'' \<and> c \<noteq> CHR ''-''"
proof (induction n rule: str_nat.induct)
  case (1 n)
  show ?case
  proof (cases "n < 10")
    case True
    with 1(2) show ?thesis by (subst (asm) str_nat.simps) (simp add: digit_char_neq)
  next
    case False
    with 1 show ?thesis
      by (subst (asm) (2) str_nat.simps) (auto simp: digit_char_neq)
  qed
qed

lemma str_nat_nonempty: "str_nat n \<noteq> []"
  by (subst str_nat.simps) simp

lemma int_of_str_str_int: "int_of_str (str_int i) = i"
proof (cases "i < 0")
  case True
  then show ?thesis by (simp add: str_int_def int_of_str_def nat_of_str_str_nat)
next
  case False
  obtain c cs where eq: "str_nat (nat i) = c # cs"
    using str_nat_nonempty by (cases "str_nat (nat i)") auto
  have "c \<in> set (str_nat (nat i))" by (simp add: eq)
  then have "c \<noteq> CHR ''-''" using str_nat_chars by blast
  moreover have "nat_of_str (c # cs) = nat i" using nat_of_str_str_nat[of "nat i"] eq by simp
  ultimately show ?thesis using False by (simp add: str_int_def int_of_str_def eq)
qed

lemma str_int_no_sep: "CHR ''_'' \<notin> set (str_int i)"
  using str_nat_chars by (auto simp: str_int_def)

lemma split_on_no_sep: "sep \<notin> set s \<Longrightarrow> split_on sep s = [s]"
  by (induction s) auto

lemma split_on_append: "sep \<notin> set a \<Longrightarrow> split_on sep (a @ sep # rest) = a # split_on sep rest"
  by (induction a) auto

lemma split_segment_ref:
  "split_on CHR ''_'' (segment_ref u v key) = [''seg'', str_int u, str_int v, str_int key]"
proof -
  have seg: "CHR ''_'' \<notin> set ''seg''" by simp
  have unfold: "segment_ref u v key =
      ''seg'' @ CHR ''_'' # (str_int u @ CHR ''_'' # (str_int v @ CHR ''_'' # str_int key))"
    by (simp add: segment_ref_def)
  have s1: "split_on CHR ''_''
      (''seg'' @ CHR ''_'' # (str_int u @ CHR ''_'' # (str_int v @ CHR ''_'' # str_int key))) =
      ''seg'' # split_on CHR ''_'' (str_int u @ CHR ''_'' # (str_int v @ CHR ''_'' # str_int key))"
    using seg by (rule split_on_append)
  have s2: "split_on CHR ''_'' (str_int u @ CHR ''_'' # (str_int v @ CHR ''_'' # str_int key)) =
      str_int u # split_on CHR ''_'' (str_int v @ CHR ''_'' # str_int key)"
    using str_int_no_sep by (rule split_on_append)
  have s3: "split_on CHR ''_'' (str_int v @ CHR ''_'' # str_int key) =
      str_int v # split_on CHR ''_'' (str_int key)"
    using str_int_no_sep by (rule split_on_append)
  have s4: "split_on CHR ''_'' (str_int key) = [str_int key]"
    using str_int_no_sep by (rule split_on_no_sep)
  show ?thesis
    by (simp only: unfold s1 s2 s3 s4)
qed

lemma segment_key_make_segment:
  assumes "make_segment G e = Inr s"
  shows "segment_key s = Some (edge_key e)"
proof -
  obtain u v key data where e: "e = (u, v, key, data)" by (cases e) auto
  from assms have "seg_id s = segment_ref u v key"
    by (auto simp: make_segment_def e split: sum.splits)
  then show ?thesis
    by (simp add: segment_key_def split_segment_ref int_of_str_str_int edge_key_def e)
qed

subsection \<open>The edge loop\<close>

lemma edge_loop_invariant:
  "edge_loop G es seen segs = Inr r \<Longrightarrow>
     \<exists>new. r = segs @ new \<and> distinct (map segment_key new) \<and>
       set (map segment_key new) = Some ` (edge_key ` set es - seen) \<and>
       (\<forall>s\<in>set new. \<exists>e\<in>set es. make_segment G e = Inr s)"
proof (induction es arbitrary: seen segs)
  case Nil
  then show ?case by simp
next
  case (Cons e es)
  show ?case
  proof (cases "edge_key e \<in> seen")
    case True
    with Cons.prems have "edge_loop G es seen segs = Inr r" by simp
    from Cons.IH[OF this] obtain new where new: "r = segs @ new" "distinct (map segment_key new)"
      "set (map segment_key new) = Some ` (edge_key ` set es - seen)"
      "\<forall>s\<in>set new. \<exists>e\<in>set es. make_segment G e = Inr s" by blast
    have "edge_key ` set (e # es) - seen = edge_key ` set es - seen" using True by auto
    with new show ?thesis by (intro exI[of _ new]) auto
  next
    case False
    with Cons.prems obtain s where s: "make_segment G e = Inr s"
      and loop: "edge_loop G es (insert (edge_key e) seen) (segs @ [s]) = Inr r"
      by (auto split: sum.splits)
    from Cons.IH[OF loop] obtain new where new: "r = (segs @ [s]) @ new"
      "distinct (map segment_key new)"
      "set (map segment_key new) = Some ` (edge_key ` set es - insert (edge_key e) seen)"
      "\<forall>s\<in>set new. \<exists>e\<in>set es. make_segment G e = Inr s" by blast
    have k: "segment_key s = Some (edge_key e)" using s by (rule segment_key_make_segment)
    have notin: "segment_key s \<notin> set (map segment_key new)"
      unfolding new(3) k by auto
    have sets: "set (map segment_key (s # new)) = Some ` (edge_key ` set (e # es) - seen)"
      using new(3) k False by auto
    show ?thesis
    proof (intro exI[of _ "s # new"] conjI)
      show "r = segs @ s # new" using new(1) by simp
      show "distinct (map segment_key (s # new))" using new(2) notin by simp
      show "set (map segment_key (s # new)) = Some ` (edge_key ` set (e # es) - seen)" by (rule sets)
      show "\<forall>s\<in>set (s # new). \<exists>e\<in>set (e # es). make_segment G e = Inr s"
        using new(4) s by auto
    qed
  qed
qed

lemma build_segments_distinct:
  "build_segments G = Inr segs \<Longrightarrow> distinct (map segment_key segs)"
  using edge_loop_invariant[of G "g_edges G" "{}" "[]" segs] by (auto simp: build_segments_def)

lemma build_segments_keys:
  "build_segments G = Inr segs \<Longrightarrow> set (map segment_key segs) = Some ` edge_key ` set (g_edges G)"
  using edge_loop_invariant[of G "g_edges G" "{}" "[]" segs] by (auto simp: build_segments_def)

lemma build_segments_origin:
  "build_segments G = Inr segs \<Longrightarrow> s \<in> set segs \<Longrightarrow> \<exists>e\<in>set (g_edges G). make_segment G e = Inr s"
  using edge_loop_invariant[of G "g_edges G" "{}" "[]" segs] by (auto simp: build_segments_def)

lemma edge_loop_first:
  "edge_loop G (pre @ e # post) seen segs = Inr r \<Longrightarrow> edge_key e \<notin> seen \<Longrightarrow>
     edge_key e \<notin> edge_key ` set pre \<Longrightarrow>
     \<exists>s. make_segment G e = Inr s \<and> s \<in> set r"
proof (induction pre arbitrary: seen segs)
  case Nil
  then obtain s where s: "make_segment G e = Inr s"
      and loop: "edge_loop G post (insert (edge_key e) seen) (segs @ [s]) = Inr r"
    by (auto split: sum.splits)
  from edge_loop_invariant[OF loop] show ?case using s by auto
next
  case (Cons p pre)
  show ?case
  proof (cases "edge_key p \<in> seen")
    case True
    with Cons.prems have "edge_loop G (pre @ e # post) seen segs = Inr r" by simp
    from Cons.IH[OF this] Cons.prems show ?thesis by auto
  next
    case False
    with Cons.prems obtain s where
      loop: "edge_loop G (pre @ e # post) (insert (edge_key p) seen) (segs @ [s]) = Inr r"
      by (auto split: sum.splits)
    from Cons.IH[OF loop] Cons.prems show ?thesis by auto
  qed
qed

lemma graph_to_json_segments:
  "graph_to_json Gs Gf = Inr out \<Longrightarrow> build_segments Gs = Inr (segments out)"
  by (auto simp: graph_to_json_def Let_def split: sum.splits)

lemma distinct_map_count_one:
  "distinct (map f xs) \<Longrightarrow> y \<in> f ` set xs \<Longrightarrow> length (filter (\<lambda>x. f x = y) xs) = 1"
proof (induction xs)
  case Nil
  then show ?case by simp
next
  case (Cons x xs)
  show ?case
  proof (cases "f x = y")
    case True
    with Cons.prems have "y \<notin> f ` set xs" by auto
    then have "filter (\<lambda>x. f x = y) xs = []" by (auto simp: filter_empty_conv)
    with True show ?thesis by simp
  next
    case False
    with Cons show ?thesis by auto
  qed
qed

lemma distinct_map_same_key:
  "distinct (map f xs) \<Longrightarrow> x \<in> set xs \<Longrightarrow> y \<in> set xs \<Longrightarrow> f x = f y \<Longrightarrow> x = y"
  by (meson distinct_map inj_on_def)

subsection \<open>Evaluating the examples\<close>

lemma str_int_examples:
  "str_int 0 = ''0''" "str_int 1 = ''1''" "str_int 2 = ''2''" "str_int 3 = ''3''"
  by (simp_all add: str_int_def str_nat.simps digit_char_def)

lemmas eval_defs = build_segments_def edge_key_def edge_id_min_max make_segment_def
  edge_geometry_def node_attrs_def dict_item_def dict_get_def way_ids_def street_name_def
  oneway_flag_def oneway_item_def oneway_words_def lower_def lower_char_def
  segment_ref_def node_ref_def str_int_examples project_nodes_def project_node_def
  starting_location_def as_number_def py_min_def dist_key_def graph_to_json_def
  full_graph_edge_def flip_coords_def power2_eq_square

lemma scenario_export: "graph_to_json scenario_graph None = Inr scenario_doc"
  by (simp add: scenario_graph_def scenario_doc_def eval_defs)

lemma link_up_first_export:
  "graph_to_json link_up_first None = Inr (link_doc up_segment [up_full_edge, down_full_edge])"
  by (simp add: link_up_first_def link_nodes_def up_attrs_def down_attrs_def link_doc_def
      link_projection_def       up_segment_def up_full_edge_def down_full_edge_def eval_defs)

lemma link_down_first_export:
  "graph_to_json link_down_first None = Inr (link_doc down_segment [down_full_edge, up_full_edge])"
  by (simp add: link_down_first_def link_nodes_def up_attrs_def down_attrs_def link_doc_def
      link_projection_def       down_segment_def up_full_edge_def down_full_edge_def eval_defs)

lemma one_edge_exports:
  "graph_to_json (one_edge_graph curved_attrs) None =
     Inr (link_doc (plain_segment\<lparr>geometry := [[PFloat 1, PFloat 5], [PFloat 2, PFloat 6], [PFloat 3, PFloat 7]]\<rparr>)
            [plain_full_edge])"
  "graph_to_json (one_edge_graph empty_line_attrs) None =
     Inr (link_doc (plain_segment\<lparr>geometry := []\<rparr>) [plain_full_edge])"
  "graph_to_json (one_edge_graph Map.empty) None = Inr (link_doc plain_segment [plain_full_edge])"
  "graph_to_json (one_edge_graph set_osmid_attrs) (Some (one_edge_graph set_osmid_attrs)) =
     Inr (link_doc (plain_segment\<lparr>osmWayIds := [PObject ''set'']\<rparr>) [plain_full_edge])"
  by (simp_all add: one_edge_graph_def link_nodes_def link_doc_def link_projection_def
      plain_segment_def plain_full_edge_def curved_attrs_def empty_line_attrs_def
      set_osmid_attrs_def eval_defs)

subsection \<open>Where an emitted segment comes from\<close>

lemma graph_to_json_origin:
  assumes "graph_to_json Gs Gf = Inr out" "s \<in> set (segments out)"
  shows "\<exists>u v key d. (u, v, key, d) \<in> set (g_edges Gs) \<and> make_segment Gs (u, v, key, d) = Inr s"
proof -
  from assms(1) have "build_segments Gs = Inr (segments out)" by (rule graph_to_json_segments)
  from build_segments_origin[OF this assms(2)] obtain e where
    "e \<in> set (g_edges Gs)" "make_segment Gs e = Inr s" by blast
  moreover obtain u v key d where "e = (u, v, key, d)" by (cases e) auto
  ultimately show ?thesis by blast
qed

lemma edge_geometry_Some:
  "data ''geometry'' = Some g \<Longrightarrow> edge_geometry G u v data = Inr geom \<Longrightarrow>
     \<exists>coords. g = PLineString coords \<and> geom = map (\<lambda>(lon, lat). [PFloat lat, PFloat lon]) coords"
  by (cases g) (auto simp: edge_geometry_def flip_coords_def)

lemma edge_geometry_None:
  "data ''geometry'' = None \<Longrightarrow> edge_geometry G u v data = Inr geom \<Longrightarrow>
     \<exists>start_node end_node sy sx ey ex.
        map_of (g_nodes G) u = Some start_node \<and> map_of (g_nodes G) v = Some end_node \<and>
        start_node ''y'' = Some sy \<and> start_node ''x'' = Some sx \<and>
        end_node ''y'' = Some ey \<and> end_node ''x'' = Some ex \<and>
        geom = [[sy, sx], [ey, ex]]"
  by (auto simp: edge_geometry_def node_attrs_def dict_item_def split: option.splits sum.splits)

lemma edge_loop_opposite_pair:
  "edge_loop G [(a, b, key, d1), (b, a, key, d2)] {} [] = Inr r \<Longrightarrow> length r = 1"
  by (auto simp: edge_key_def edge_id_commute split: sum.splits)

subsection \<open>Sums and minima\<close>

lemma as_number_numeric: "numeric pv \<Longrightarrow> as_number pv = Inr (number_of pv)"
  by (cases pv) (auto simp: numeric_def as_number_def number_of_def)

lemma py_sum_numeric:
  "\<forall>pv\<in>set pvs. numeric pv \<Longrightarrow> py_sum acc pvs = Inr (acc + (\<Sum>pv\<leftarrow>pvs. number_of pv))"
  by (induction pvs arbitrary: acc) (auto simp: as_number_numeric)

lemma min_loop_first_minimum:
  assumes "\<forall>x\<in>set xs. f x = Inr (g x)"
    and "\<forall>p\<in>set pre. g best < g p"
    and "\<forall>q\<in>set mid. g best \<le> g q"
  shows "\<exists>pre' r post'. min_loop f best (g best) xs = Inr r \<and>
           pre @ best # mid @ xs = pre' @ r # post' \<and>
           (\<forall>p\<in>set pre'. g r < g p) \<and> (\<forall>q\<in>set post'. g r \<le> g q)"
  using assms
proof (induction xs arbitrary: pre best mid)
  case Nil
  then show ?case by (intro exI[of _ pre] exI[of _ best] exI[of _ mid]) simp
next
  case (Cons x xs)
  have fx: "f x = Inr (g x)" and rest: "\<forall>y\<in>set xs. f y = Inr (g y)" using Cons.prems(1) by auto
  show ?case
  proof (cases "g x < g best")
    case True
    have a: "\<forall>p\<in>set (pre @ best # mid). g x < g p"
      using True Cons.prems(2,3) by fastforce
    have b: "\<forall>q\<in>set ([]::'a list). g x \<le> g q" by simp
    from Cons.IH[OF rest a b] obtain pre' r post' where
      "min_loop f x (g x) xs = Inr r" "(pre @ best # mid) @ x # [] @ xs = pre' @ r # post'"
      "\<forall>p\<in>set pre'. g r < g p" "\<forall>q\<in>set post'. g r \<le> g q" by blast
    then show ?thesis using True fx
      by (intro exI[of _ pre'] exI[of _ r] exI[of _ post']) simp
  next
    case False
    have b: "\<forall>q\<in>set (mid @ [x]). g best \<le> g q" using False Cons.prems(3) by auto
    from Cons.IH[OF rest Cons.prems(2) b] obtain pre' r post' where
      "min_loop f best (g best) xs = Inr r" "pre @ best # (mid @ [x]) @ xs = pre' @ r # post'"
      "\<forall>p\<in>set pre'. g r < g p" "\<forall>q\<in>set post'. g r \<le> g q" by blast
    then show ?thesis using False fx
      by (intro exI[of _ pre'] exI[of _ r] exI[of _ post']) simp
  qed
qed

lemma py_min_first_minimum:
  assumes "xs \<noteq> []" and "\<forall>x\<in>set xs. f x = Inr (g x)"
  shows "\<exists>pre r post. py_min f xs = Inr r \<and> xs = pre @ r # post \<and>
           (\<forall>p\<in>set pre. g r < g p) \<and> (\<forall>q\<in>set post. g r \<le> g q)"
proof -
  from assms(1) obtain x rest where xs: "xs = x # rest" by (cases xs) auto
  have fx: "f x = Inr (g x)" and r: "\<forall>y\<in>set rest. f y = Inr (g y)" using assms(2) xs by auto
  have a: "\<forall>p\<in>set ([]::'a list). g x < g p" and b: "\<forall>q\<in>set ([]::'a list). g x \<le> g q" by simp_all
  from min_loop_first_minimum[OF r a b] obtain pre m post where
    loop: "min_loop f x (g x) rest = Inr m" and parts: "[] @ x # [] @ rest = pre @ m # post"
    and lt: "\<forall>p\<in>set pre. g m < g p" and le: "\<forall>q\<in>set post. g m \<le> g q" by blast
  have "py_min f xs = Inr m" using loop fx by (simp add: py_min_def xs)
  moreover have "xs = pre @ m # post" using parts by (simp add: xs)
  ultimately show ?thesis using lt le by blast
qed

lemma dist_key_numeric:
  "numeric (n_lat n) \<Longrightarrow> numeric (n_lon n) \<Longrightarrow>
     dist_key a b n = Inr ((number_of (n_lat n) - a)\<^sup>2 + (number_of (n_lon n) - b)\<^sup>2)"
  by (simp add: dist_key_def as_number_numeric)

lemma starting_location_numeric:
  assumes "ns \<noteq> []" and num: "\<forall>n\<in>set ns. numeric (n_lat n) \<and> numeric (n_lon n)"
  shows "\<exists>pre best post. ns = pre @ best # post \<and> starting_location ns = Inr (Some best) \<and>
           (\<forall>p\<in>set pre. centroid_sq_dist ns best < centroid_sq_dist ns p) \<and>
           (\<forall>q\<in>set post. centroid_sq_dist ns best \<le> centroid_sq_dist ns q)"
proof -
  define a where "a = (\<Sum>m\<leftarrow>ns. number_of (n_lat m)) / real (length ns)"
  define b where "b = (\<Sum>m\<leftarrow>ns. number_of (n_lon m)) / real (length ns)"
  have slat: "py_sum 0 (map n_lat ns) = Inr (\<Sum>m\<leftarrow>ns. number_of (n_lat m))"
    using py_sum_numeric[of "map n_lat ns" 0] num by (simp add: comp_def)
  have slon: "py_sum 0 (map n_lon ns) = Inr (\<Sum>m\<leftarrow>ns. number_of (n_lon m))"
    using py_sum_numeric[of "map n_lon ns" 0] num by (simp add: comp_def)
  have keys: "\<forall>n\<in>set ns. dist_key a b n = Inr (centroid_sq_dist ns n)"
    using num by (simp add: dist_key_numeric centroid_sq_dist_def a_def b_def)
  from py_min_first_minimum[OF assms(1) keys] obtain pre r post where
    m: "py_min (dist_key a b) ns = Inr r" and split: "ns = pre @ r # post"
    and lt: "\<forall>p\<in>set pre. centroid_sq_dist ns r < centroid_sq_dist ns p"
    and le: "\<forall>q\<in>set post. centroid_sq_dist ns r \<le> centroid_sq_dist ns q" by blast
  have "starting_location ns = Inr (Some r)"
    using assms(1) slat slon m by (simp add: starting_location_def Let_def a_def b_def)
  with split lt le show ?thesis by blast
qed





subsection \<open>When the exporter returns\<close>

lemma make_segment_returns_iff:
  "(\<exists>s. make_segment G e = Inr s) \<longleftrightarrow> edge_convertible G e"
proof -
  obtain u v key data where e: "e = (u, v, key, data)" by (cases e) auto
  have "(\<exists>geom. edge_geometry G u v data = Inr geom) \<longleftrightarrow> edge_convertible G (u, v, key, data)"
    by (auto simp: edge_geometry_def edge_convertible_def node_attrs_def dict_item_def
        split: option.splits pyval.splits sum.splits)
  then show ?thesis
    by (auto simp: make_segment_def e split: sum.splits)
qed

lemma edge_loop_returns:
  "\<forall>e\<in>set es. edge_convertible G e \<Longrightarrow> \<exists>r. edge_loop G es seen segs = Inr r"
proof (induction es arbitrary: seen segs)
  case Nil
  then show ?case by simp
next
  case (Cons e es)
  then obtain s where "make_segment G e = Inr s"
    using make_segment_returns_iff[of G e] by auto
  with Cons show ?case by auto
qed

lemma project_node_numeric:
  "node_numeric nd \<Longrightarrow> numeric (n_lat (project_node nd)) \<and> numeric (n_lon (project_node nd))"
  by (cases nd) (auto simp: node_numeric_def project_node_def dict_get_def numeric_def
      split: option.splits)

lemma graph_to_json_returns:
  assumes "\<forall>e\<in>set (g_edges Gs). edge_convertible Gs e"
    and "\<forall>nd\<in>set (g_nodes Gs). node_numeric nd"
  shows "\<exists>out. graph_to_json Gs Gf = Inr out"
proof -
  from edge_loop_returns[OF assms(1)] obtain segs where b: "build_segments Gs = Inr segs"
    by (auto simp: build_segments_def)
  have "\<exists>start. starting_location (project_nodes Gs) = Inr start"
  proof (cases "project_nodes Gs = []")
    case True
    then show ?thesis by (simp add: starting_location_def)
  next
    case False
    have "\<forall>n\<in>set (project_nodes Gs). numeric (n_lat n) \<and> numeric (n_lon n)"
      using assms(2) project_node_numeric by (auto simp: project_nodes_def)
    from starting_location_numeric[OF False this] show ?thesis by blast
  qed
  then obtain start where "starting_location (project_nodes Gs) = Inr start" by blast
  with b show ?thesis by (simp add: graph_to_json_def Let_def)
qed

subsection \<open>The command line\<close>

lemma floats_length: "floats pf ps = Inr rs \<Longrightarrow> length rs = length ps"
  by (induction ps arbitrary: rs) (auto split: option.splits sum.splits)

lemma floats_Inr_iff: "(\<exists>rs. floats pf ps = Inr rs) \<longleftrightarrow> (\<forall>p\<in>set ps. pf p \<noteq> None)"
  by (induction ps) (auto split: option.splits sum.splits)

lemma parse_bbox_error_iff:
  "(\<exists>err. parse_bbox pf (Some s) = Inl err) \<longleftrightarrow>
     s \<noteq> [] \<and> \<not> (length (split_on CHR '','' s) = 4 \<and> (\<forall>p\<in>set (split_on CHR '','' s). pf p \<noteq> None))"
proof (cases "s = []")
  case True
  then show ?thesis by (simp add: parse_bbox_def)
next
  case False
  show ?thesis
  proof (cases "floats pf (split_on CHR '','' s)")
    case (Inl a)
    then have "\<not> (\<forall>p\<in>set (split_on CHR '','' s). pf p \<noteq> None)"
      using floats_Inr_iff[of pf "split_on CHR '','' s"] by auto
    with Inl False show ?thesis by (simp add: parse_bbox_def)
  next
    case (Inr rs)
    then have "\<forall>p\<in>set (split_on CHR '','' s). pf p \<noteq> None"
      using floats_Inr_iff[of pf "split_on CHR '','' s"] by blast
    moreover have "length rs = length (split_on CHR '','' s)" using Inr by (rule floats_length)
    ultimately show ?thesis using Inr False by (auto simp: parse_bbox_def)
  qed
qed

lemma parse_bbox_three: "\<exists>err. parse_bbox pf (Some ''1,2,3'') = Inl err"
  unfolding parse_bbox_error_iff by simp

lemma main_cases:
  "main env args fs = (1, fs) \<or>
   (\<exists>doc. \<not> doc_encodable doc \<and> fs (osm_file args) \<noteq> None \<and> can_open_w env (output_json args) \<and>
      main env args fs = (1, fs(output_json args \<mapsto> JsonPrefix doc))) \<or>
   (\<exists>doc. doc_encodable doc \<and> fs (osm_file args) \<noteq> None \<and> can_open_w env (output_json args) \<and>
      main env args fs = (0, fs(output_json args \<mapsto> JsonText doc)))"
  by (auto simp: main_def split: sum.splits prod.splits)

lemma unencodable_doc:
  "\<not> doc_encodable (link_doc (plain_segment\<lparr>osmWayIds := [PObject ''set'']\<rparr>) [plain_full_edge])"
  by (simp add: doc_encodable_def link_doc_def segment_encodable_def plain_segment_def)

lemma example_main:
  "main example_env example_args example_fs =
     (1, example_fs(''out.json'' \<mapsto>
           JsonPrefix (link_doc (plain_segment\<lparr>osmWayIds := [PObject ''set'']\<rparr>) [plain_full_edge])))"
  by (simp add: main_def example_env_def example_args_def parse_bbox_def one_edge_exports
      unencodable_doc example_fs_def)

section \<open>Segment deduplication\<close>

text \<open>
  Claim C1.  Whenever the exporter returns a document, no two entries of its
  \<open>segments\<close> list have the same canonical key (sorted endpoint pair and disambiguating
  key), and every entry has such a key.  When the simplified graph holds a directed edge
  \<open>(u, v, key)\<close> and its reverse \<open>(v, u, key)\<close>, the two have the same canonical key and
  exactly one emitted segment carries it, wherever the two edges stand in the iteration
  order.
\<close>

theorem segments_canonical_keys_distinct:
  assumes "graph_to_json Gs Gf = Inr out"
  shows "distinct (map segment_key (segments out)) \<and>
         None \<notin> set (map segment_key (segments out)) \<and>
         (\<forall>u v key d d'.
            (u, v, key, d) \<in> set (g_edges Gs) \<and> (v, u, key, d') \<in> set (g_edges Gs) \<longrightarrow>
            edge_key (v, u, key, d') = edge_key (u, v, key, d) \<and>
            length (filter (\<lambda>s. segment_key s = Some (edge_id u v key)) (segments out)) = 1)"
proof -
  from assms have b: "build_segments Gs = Inr (segments out)" by (rule graph_to_json_segments)
  have d: "distinct (map segment_key (segments out))" using b by (rule build_segments_distinct)
  have k: "set (map segment_key (segments out)) = Some ` edge_key ` set (g_edges Gs)"
    using b by (rule build_segments_keys)
  have n: "None \<notin> set (map segment_key (segments out))" unfolding k by auto
  have "length (filter (\<lambda>s. segment_key s = Some (edge_id u v key)) (segments out)) = 1"
    if "(u, v, key, d) \<in> set (g_edges Gs)" for u v key d
  proof -
    from that have "Some (edge_key (u, v, key, d)) \<in> Some ` edge_key ` set (g_edges Gs)" by blast
    then have "Some (edge_id u v key) \<in> segment_key ` set (segments out)"
      using k by (simp add: edge_key_def)
    with d show ?thesis by (rule distinct_map_count_one)
  qed
  then show ?thesis using d n by (auto simp: edge_key_def edge_id_commute)
qed

theorem segments_canonical_keys_distinct_witness:
  "graph_to_json link_down_first None = Inr (link_doc down_segment [down_full_edge, up_full_edge]) \<and>
   distinct (map segment_key (segments (link_doc down_segment [down_full_edge, up_full_edge]))) \<and>
   (1, 2, 0, up_attrs) \<in> set (g_edges link_down_first) \<and>
   (2, 1, 0, down_attrs) \<in> set (g_edges link_down_first) \<and>
   length (filter (\<lambda>s. segment_key s = Some (edge_id 1 2 0))
     (segments (link_doc down_segment [down_full_edge, up_full_edge]))) = 1"
proof -
  have e1: "(1, 2, 0, up_attrs) \<in> set (g_edges link_down_first)"
    and e2: "(2, 1, 0, down_attrs) \<in> set (g_edges link_down_first)"
    by (simp_all add: link_down_first_def)
  from segments_canonical_keys_distinct[OF link_down_first_export] e1 e2
  show ?thesis using link_down_first_export by blast
qed

text \<open>
  Claim C9.  Whenever the exporter returns a document, the canonical keys of the emitted
  segments are exactly the canonical keys that occur among the edges of the simplified
  graph, each edge's key is carried by exactly one segment, and the number of segments
  is the number of distinct canonical keys.
\<close>

theorem segments_one_per_canonical_key:
  assumes "graph_to_json Gs Gf = Inr out"
  shows "length (segments out) = card (edge_key ` set (g_edges Gs)) \<and>
         set (map segment_key (segments out)) = Some ` edge_key ` set (g_edges Gs) \<and>
         (\<forall>e\<in>set (g_edges Gs).
            length (filter (\<lambda>s. segment_key s = Some (edge_key e)) (segments out)) = 1)"
proof -
  from assms have b: "build_segments Gs = Inr (segments out)" by (rule graph_to_json_segments)
  have d: "distinct (map segment_key (segments out))" using b by (rule build_segments_distinct)
  have k: "set (map segment_key (segments out)) = Some ` edge_key ` set (g_edges Gs)"
    using b by (rule build_segments_keys)
  have "length (segments out) = card (set (map segment_key (segments out)))"
    using distinct_card[OF d] by simp
  also have "\<dots> = card (Some ` edge_key ` set (g_edges Gs))" by (simp only: k)
  also have "\<dots> = card (edge_key ` set (g_edges Gs))" by (rule card_image) simp
  finally have len: "length (segments out) = card (edge_key ` set (g_edges Gs))" .
  have "length (filter (\<lambda>s. segment_key s = Some (edge_key e)) (segments out)) = 1"
    if "e \<in> set (g_edges Gs)" for e
  proof -
    from that have "Some (edge_key e) \<in> segment_key ` set (segments out)" using k by auto
    with d show ?thesis by (rule distinct_map_count_one)
  qed
  with len k show ?thesis by blast
qed

theorem segments_one_per_canonical_key_witness:
  "graph_to_json scenario_graph None = Inr scenario_doc \<and>
   length (segments scenario_doc) = card (edge_key ` set (g_edges scenario_graph)) \<and>
   card (edge_key ` set (g_edges scenario_graph)) = 1 \<and>
   length (filter (\<lambda>s. segment_key s = Some (edge_key (2, 1, 0, [''length'' \<mapsto> PFloat 10])))
     (segments scenario_doc)) = 1"
proof -
  have e: "(2, 1, 0, [''length'' \<mapsto> PFloat 10]) \<in> set (g_edges scenario_graph)"
    by (simp add: scenario_graph_def)
  have c: "card (edge_key ` set (g_edges scenario_graph)) = 1"
    by (simp add: scenario_graph_def edge_key_def edge_id_min_max)
  from segments_one_per_canonical_key[OF scenario_export] e c
  show ?thesis using scenario_export by blast
qed

text \<open>
  Claim C10.  Whenever the exporter returns a document and a directed edge
  \<open>(u, v, key)\<close> stands in the edge iteration before every other edge of the same
  canonical key (in particular before its reverse \<open>(v, u, key)\<close>), the one emitted segment
  of that canonical key is built from this edge: its id is \<^verbatim>\<open>seg_{u}_{v}_{key}\<close>, its
  start and end are \<^verbatim>\<open>node_{u}\<close> and \<^verbatim>\<open>node_{v}\<close>, and its length, name, way ids, one-way
  flag and geometry are those of this edge's attributes.
\<close>

theorem surviving_direction_is_first_visited:
  assumes "graph_to_json Gs Gf = Inr out"
    and "g_edges Gs = pre @ (u, v, key, d) # post"
    and "edge_id u v key \<notin> edge_key ` set pre"
  shows "\<exists>s\<in>set (segments out).
           make_segment Gs (u, v, key, d) = Inr s \<and>
           seg_id s = segment_ref u v key \<and> startNodeId s = node_ref u \<and>
           endNodeId s = node_ref v \<and>
           lengthMeters s = dict_get d ''length'' (PFloat 0) \<and> seg_name s = street_name d \<and>
           osmWayIds s = way_ids d \<and> oneway s = oneway_flag d \<and>
           edge_geometry Gs u v d = Inr (geometry s) \<and>
           (\<forall>t\<in>set (segments out). segment_key t = Some (edge_id u v key) \<longrightarrow> t = s)"
proof -
  from assms(1) have b: "build_segments Gs = Inr (segments out)" by (rule graph_to_json_segments)
  have dist: "distinct (map segment_key (segments out))" using b by (rule build_segments_distinct)
  have loop: "edge_loop Gs (pre @ (u, v, key, d) # post) {} [] = Inr (segments out)"
    using b assms(2) by (simp add: build_segments_def)
  have "edge_key (u, v, key, d) \<notin> edge_key ` set pre" using assms(3) by (simp add: edge_key_def)
  with edge_loop_first[OF loop] obtain s where s: "make_segment Gs (u, v, key, d) = Inr s"
    and mem: "s \<in> set (segments out)" by auto
  have key_s: "segment_key s = Some (edge_id u v key)"
    using segment_key_make_segment[OF s] by (simp add: edge_key_def)
  have uniq: "t = s" if "t \<in> set (segments out)" "segment_key t = Some (edge_id u v key)" for t
    using distinct_map_same_key[OF dist that(1) mem] that(2) key_s by simp
  from s have fields: "seg_id s = segment_ref u v key" "startNodeId s = node_ref u"
    "endNodeId s = node_ref v" "lengthMeters s = dict_get d ''length'' (PFloat 0)"
    "seg_name s = street_name d" "osmWayIds s = way_ids d" "oneway s = oneway_flag d"
    "edge_geometry Gs u v d = Inr (geometry s)"
    by (auto simp: make_segment_def split: sum.splits)
  show ?thesis
    using mem s fields uniq by (intro bexI[of _ s]) auto
qed

theorem surviving_direction_is_first_visited_witness:
  "graph_to_json link_up_first None = Inr (link_doc up_segment [up_full_edge, down_full_edge]) \<and>
   g_edges link_up_first = [] @ (1, 2, 0, up_attrs) # [(2, 1, 0, down_attrs)] \<and>
   edge_id 1 2 0 \<notin> edge_key ` set [] \<and>
   (\<exists>s\<in>set (segments (link_doc up_segment [up_full_edge, down_full_edge])).
      make_segment link_up_first (1, 2, 0, up_attrs) = Inr s \<and>
      seg_id s = ''seg_1_2_0'' \<and> startNodeId s = ''node_1'' \<and> endNodeId s = ''node_2'' \<and>
      lengthMeters s = PFloat 10 \<and> seg_name s = PStr ''Up'' \<and> osmWayIds s = [PInt 7] \<and>
      oneway s = True) \<and>
   graph_to_json link_down_first None = Inr (link_doc down_segment [down_full_edge, up_full_edge]) \<and>
   g_edges link_down_first = [] @ (2, 1, 0, down_attrs) # [(1, 2, 0, up_attrs)] \<and>
   (\<exists>s\<in>set (segments (link_doc down_segment [down_full_edge, up_full_edge])).
      make_segment link_down_first (2, 1, 0, down_attrs) = Inr s \<and>
      seg_id s = ''seg_2_1_0'' \<and> startNodeId s = ''node_2'' \<and> endNodeId s = ''node_1'' \<and>
      lengthMeters s = PFloat 12 \<and> seg_name s = PStr ''Down'' \<and>
      osmWayIds s = [PInt 8, PInt 9] \<and> oneway s = False)"
proof -
  have up: "g_edges link_up_first = [] @ (1, 2, 0, up_attrs) # [(2, 1, 0, down_attrs)]"
    by (simp add: link_up_first_def)
  have down: "g_edges link_down_first = [] @ (2, 1, 0, down_attrs) # [(1, 2, 0, up_attrs)]"
    by (simp add: link_down_first_def)
  have fresh: "edge_id a b c \<notin> edge_key ` set []" for a b c by simp
  from surviving_direction_is_first_visited[OF link_up_first_export up fresh]
  have a: "\<exists>s\<in>set (segments (link_doc up_segment [up_full_edge, down_full_edge])).
      make_segment link_up_first (1, 2, 0, up_attrs) = Inr s \<and>
      seg_id s = ''seg_1_2_0'' \<and> startNodeId s = ''node_1'' \<and> endNodeId s = ''node_2'' \<and>
      lengthMeters s = PFloat 10 \<and> seg_name s = PStr ''Up'' \<and> osmWayIds s = [PInt 7] \<and>
      oneway s = True"
    by (simp add: link_doc_def up_segment_def)
  from surviving_direction_is_first_visited[OF link_down_first_export down fresh]
  have b: "\<exists>s\<in>set (segments (link_doc down_segment [down_full_edge, up_full_edge])).
      make_segment link_down_first (2, 1, 0, down_attrs) = Inr s \<and>
      seg_id s = ''seg_2_1_0'' \<and> startNodeId s = ''node_2'' \<and> endNodeId s = ''node_1'' \<and>
      lengthMeters s = PFloat 12 \<and> seg_name s = PStr ''Down'' \<and>
      osmWayIds s = [PInt 8, PInt 9] \<and> oneway s = False"
    by (simp add: link_doc_def down_segment_def)
  show ?thesis
    using link_up_first_export link_down_first_export up down fresh a b by blast
qed

section \<open>Full-graph edges\<close>

text \<open>
  Claim C5.  Whenever the exporter returns a document, \<open>fullGraphEdges\<close> holds one entry
  (start id, end id, length) per directed edge of the full graph, in iteration order and
  with nothing dropped, parallel and reverse edges included.  In particular, when the
  simplified graph and the full graph both consist of a pair of opposite directed edges
  of one key, \<open>fullGraphEdges\<close> has 2 entries and \<open>segments\<close> has exactly 1.
\<close>

theorem full_graph_edges_not_deduplicated:
  assumes "graph_to_json Gs Gf = Inr out"
    and "G_full = (case Gf of None \<Rightarrow> Gs | Some g \<Rightarrow> g)"
  shows "fullGraphEdges out = map full_graph_edge (g_edges G_full) \<and>
         length (fullGraphEdges out) = length (g_edges G_full) \<and>
         (\<forall>a b key d1 d2.
            g_edges Gs = [(a, b, key, d1), (b, a, key, d2)] \<and> g_edges G_full = g_edges Gs \<longrightarrow>
            length (fullGraphEdges out) = 2 \<and> length (segments out) = 1)"
proof -
  from assms have fe: "fullGraphEdges out = map full_graph_edge (g_edges G_full)"
    by (auto simp: graph_to_json_def Let_def split: sum.splits)
  from assms(1) have b: "build_segments Gs = Inr (segments out)" by (rule graph_to_json_segments)
  have "length (segments out) = 1"
    if "g_edges Gs = [(a, b, key, d1), (b, a, key, d2)]" for a b key d1 d2
    using b that edge_loop_opposite_pair[of Gs a b key d1 d2 "segments out"]
    by (simp add: build_segments_def)
  with fe show ?thesis by auto
qed

theorem full_graph_edges_not_deduplicated_witness:
  "graph_to_json scenario_graph None = Inr scenario_doc \<and>
   fullGraphEdges scenario_doc = map full_graph_edge (g_edges scenario_graph) \<and>
   g_edges scenario_graph =
     [(1, 2, 0, [''length'' \<mapsto> PFloat 10]), (2, 1, 0, [''length'' \<mapsto> PFloat 10])] \<and>
   length (fullGraphEdges scenario_doc) = 2 \<and> length (segments scenario_doc) = 1"
proof -
  have e: "g_edges scenario_graph =
     [(1, 2, 0, [''length'' \<mapsto> PFloat 10]), (2, 1, 0, [''length'' \<mapsto> PFloat 10])]"
    by (simp add: scenario_graph_def)
  have g: "scenario_graph = (case None of None \<Rightarrow> scenario_graph | Some g \<Rightarrow> g)" by simp
  from full_graph_edges_not_deduplicated[OF scenario_export g] e
  show ?thesis using scenario_export by blast
qed

section \<open>Attribute normalisation\<close>

text \<open>
  Claim C2, as amended.  The one-way flag of an emitted segment is: false when the edge
  has no \<open>oneway\<close> attribute; for a list, true iff at least one element is the boolean
  true or a string whose lowercase form is one of "yes", "true", "1", "-1"; for a string,
  true iff its lowercase form is in that vocabulary; for a boolean, the boolean itself;
  and false for a value of any other type.
\<close>

theorem oneway_normalization:
  assumes "make_segment G (u, v, key, data) = Inr s"
  shows "oneway s =
           (case data ''oneway'' of
              None \<Rightarrow> False
            | Some (PList items) \<Rightarrow>
                (\<exists>ov\<in>set items. ov = PBool True \<or>
                   (\<exists>w. ov = PStr w \<and> lower w \<in> {''yes'', ''true'', ''1'', ''-1''}))
            | Some (PStr w) \<Rightarrow> lower w \<in> {''yes'', ''true'', ''1'', ''-1''}
            | Some (PBool b) \<Rightarrow> b
            | Some other \<Rightarrow> False)"
proof -
  from assms have o: "oneway s = oneway_flag data"
    by (auto simp: make_segment_def split: sum.splits)
  have item: "oneway_item ov \<longleftrightarrow> ov = PBool True \<or>
      (\<exists>w. ov = PStr w \<and> lower w \<in> {''yes'', ''true'', ''1'', ''-1''})" for ov
    by (cases ov) (auto simp: oneway_item_def oneway_words_def)
  show ?thesis unfolding o
    by (simp add: oneway_flag_def dict_get_def list_ex_iff item oneway_words_def
        split: option.splits pyval.splits)
qed

theorem oneway_normalization_witness:
  "make_segment (one_edge_graph mixed_oneway_attrs) (1, 2, 0, mixed_oneway_attrs) =
     Inr (plain_segment\<lparr>oneway := True\<rparr>) \<and>
   mixed_oneway_attrs ''oneway'' = Some (PList [PBool True, PBool False]) \<and>
   oneway (plain_segment\<lparr>oneway := True\<rparr>) = True \<and>
   oneway_flag [''oneway'' \<mapsto> PList [PBool False, PBool False]] = False \<and>
   oneway_flag [''oneway'' \<mapsto> PStr ''-1''] = True \<and>
   oneway_flag [''oneway'' \<mapsto> PStr ''Yes''] = True \<and>
   oneway_flag [''oneway'' \<mapsto> PStr ''no''] = False \<and>
   oneway_flag [''oneway'' \<mapsto> PInt 1] = False \<and>
   oneway_flag [''oneway'' \<mapsto> PNone] = False \<and>
   oneway_flag Map.empty = False"
proof -
  have m: "make_segment (one_edge_graph mixed_oneway_attrs) (1, 2, 0, mixed_oneway_attrs) =
     Inr (plain_segment\<lparr>oneway := True\<rparr>)"
    by (simp add: one_edge_graph_def mixed_oneway_attrs_def link_nodes_def plain_segment_def
        eval_defs)
  have a: "mixed_oneway_attrs ''oneway'' = Some (PList [PBool True, PBool False])"
    by (simp add: mixed_oneway_attrs_def)
  from oneway_normalization[OF m]
  have "oneway (plain_segment\<lparr>oneway := True\<rparr>) = True" by (simp add: a)
  with m a show ?thesis by (simp add: eval_defs char_of_eq_iff)
qed

text \<open>
  Claim C2 as stated fails for a boolean attribute: \<^verbatim>\<open>oneway=True\<close> is neither a list
  nor a string, and its flag is true.
\<close>

theorem oneway_boolean_is_kept:
  "oneway_flag [''oneway'' \<mapsto> PBool True] = True"
  by (simp add: oneway_flag_def dict_get_def)

text \<open>
  Claim C6, as amended.  The \<open>osmWayIds\<close> of an emitted segment are: the list itself when
  the \<open>osmid\<close> attribute is a list, the singleton list of the attribute when it is of any
  other type, and the empty list when the attribute is absent.  They are empty exactly
  when the attribute is absent or is the empty list.
\<close>

theorem way_ids_normalization:
  assumes "graph_to_json Gs Gf = Inr out" and "s \<in> set (segments out)"
  shows "\<exists>u v key d. (u, v, key, d) \<in> set (g_edges Gs) \<and> seg_id s = segment_ref u v key \<and>
           osmWayIds s = (case d ''osmid'' of
                            None \<Rightarrow> []
                          | Some (PList ids) \<Rightarrow> ids
                          | Some x \<Rightarrow> [x]) \<and>
           (osmWayIds s = [] \<longleftrightarrow> d ''osmid'' = None \<or> d ''osmid'' = Some (PList []))"
proof -
  from graph_to_json_origin[OF assms] obtain u v key d where
    mem: "(u, v, key, d) \<in> set (g_edges Gs)" and mk: "make_segment Gs (u, v, key, d) = Inr s"
    by blast
  from mk have f: "seg_id s = segment_ref u v key" "osmWayIds s = way_ids d"
    by (auto simp: make_segment_def split: sum.splits)
  have w: "way_ids d = (case d ''osmid'' of None \<Rightarrow> [] | Some (PList ids) \<Rightarrow> ids | Some x \<Rightarrow> [x])"
    by (simp add: way_ids_def dict_get_def split: option.splits pyval.splits)
  have e: "way_ids d = [] \<longleftrightarrow> d ''osmid'' = None \<or> d ''osmid'' = Some (PList [])"
    by (auto simp: way_ids_def dict_get_def split: option.splits pyval.splits)
  from mem f w e show ?thesis by (intro exI[of _ u] exI[of _ v] exI[of _ key] exI[of _ d]) simp
qed

theorem way_ids_normalization_witness:
  "graph_to_json link_up_first None = Inr (link_doc up_segment [up_full_edge, down_full_edge]) \<and>
   up_segment \<in> set (segments (link_doc up_segment [up_full_edge, down_full_edge])) \<and>
   (\<exists>u v key d. (u, v, key, d) \<in> set (g_edges link_up_first) \<and>
      seg_id up_segment = segment_ref u v key \<and>
      osmWayIds up_segment = (case d ''osmid'' of
                                None \<Rightarrow> []
                              | Some (PList ids) \<Rightarrow> ids
                              | Some x \<Rightarrow> [x]) \<and>
      (osmWayIds up_segment = [] \<longleftrightarrow> d ''osmid'' = None \<or> d ''osmid'' = Some (PList []))) \<and>
   osmWayIds up_segment = [PInt 7] \<and> up_attrs ''osmid'' = Some (PInt 7)"
proof -
  have m: "up_segment \<in> set (segments (link_doc up_segment [up_full_edge, down_full_edge]))"
    by (simp add: link_doc_def)
  have v: "osmWayIds up_segment = [PInt 7]" "up_attrs ''osmid'' = Some (PInt 7)"
    by (simp_all add: up_segment_def up_attrs_def)
  from way_ids_normalization[OF link_up_first_export m] m v link_up_first_export
  show ?thesis by blast
qed

text \<open>
  Claim C6 as stated fails when the attribute is absent: the edges of the scenario
  graph carry no \<open>osmid\<close>, and the emitted segment has the empty list of way ids.
\<close>

theorem way_ids_empty_when_absent:
  "graph_to_json scenario_graph None = Inr scenario_doc \<and>
   map osmWayIds (segments scenario_doc) = [[]]"
  by (simp add: scenario_export) (simp add: scenario_doc_def)

section \<open>Geometry\<close>

text \<open>
  Claim C3, as amended.  For every emitted segment there is an edge of the simplified
  graph with the segment's identifier and endpoints such that: if the edge carries a
  geometry, it is a line string and the segment's geometry is its coordinate sequence
  with every (lon, lat) pair turned into [lat, lon], in the original order and of the
  same length; if the edge carries no geometry, both endpoints are nodes with \<open>y\<close> and
  \<open>x\<close> attributes and the geometry is exactly the two points [y, x] of the start node
  and [y, x] of the end node.  The geometry is empty exactly when the edge carries a
  line string without coordinates.
\<close>

theorem segment_geometry:
  assumes "graph_to_json Gs Gf = Inr out" and "s \<in> set (segments out)"
  shows "\<exists>u v key d. (u, v, key, d) \<in> set (g_edges Gs) \<and> seg_id s = segment_ref u v key \<and>
           startNodeId s = node_ref u \<and> endNodeId s = node_ref v \<and>
           (case d ''geometry'' of
              Some g \<Rightarrow>
                (\<exists>coords. g = PLineString coords \<and>
                   geometry s = map (\<lambda>(lon, lat). [PFloat lat, PFloat lon]) coords)
            | None \<Rightarrow>
                (\<exists>start_node end_node sy sx ey ex.
                   map_of (g_nodes Gs) u = Some start_node \<and>
                   map_of (g_nodes Gs) v = Some end_node \<and>
                   start_node ''y'' = Some sy \<and> start_node ''x'' = Some sx \<and>
                   end_node ''y'' = Some ey \<and> end_node ''x'' = Some ex \<and>
                   geometry s = [[sy, sx], [ey, ex]])) \<and>
           (geometry s = [] \<longleftrightarrow> d ''geometry'' = Some (PLineString []))"
proof -
  from graph_to_json_origin[OF assms] obtain u v key d where
    mem: "(u, v, key, d) \<in> set (g_edges Gs)" and mk: "make_segment Gs (u, v, key, d) = Inr s"
    by blast
  from mk have f: "seg_id s = segment_ref u v key" "startNodeId s = node_ref u"
    "endNodeId s = node_ref v" and g: "edge_geometry Gs u v d = Inr (geometry s)"
    by (auto simp: make_segment_def split: sum.splits)
  have shape: "(case d ''geometry'' of
              Some g \<Rightarrow>
                (\<exists>coords. g = PLineString coords \<and>
                   geometry s = map (\<lambda>(lon, lat). [PFloat lat, PFloat lon]) coords)
            | None \<Rightarrow>
                (\<exists>start_node end_node sy sx ey ex.
                   map_of (g_nodes Gs) u = Some start_node \<and>
                   map_of (g_nodes Gs) v = Some end_node \<and>
                   start_node ''y'' = Some sy \<and> start_node ''x'' = Some sx \<and>
                   end_node ''y'' = Some ey \<and> end_node ''x'' = Some ex \<and>
                   geometry s = [[sy, sx], [ey, ex]]))"
  proof (cases "d ''geometry''")
    case None
    from edge_geometry_None[OF None g] show ?thesis by (simp add: None)
  next
    case (Some a)
    from edge_geometry_Some[OF Some g] show ?thesis by (simp add: Some)
  qed
  have empty: "geometry s = [] \<longleftrightarrow> d ''geometry'' = Some (PLineString [])"
  proof (cases "d ''geometry''")
    case None
    from edge_geometry_None[OF None g] show ?thesis by (auto simp: None)
  next
    case (Some a)
    from edge_geometry_Some[OF Some g] show ?thesis by (auto simp: Some)
  qed
  from mem f shape empty show ?thesis by blast
qed

theorem segment_geometry_witness:
  "graph_to_json (one_edge_graph curved_attrs) None =
     Inr (link_doc (plain_segment\<lparr>geometry := [[PFloat 1, PFloat 5], [PFloat 2, PFloat 6], [PFloat 3, PFloat 7]]\<rparr>)
            [plain_full_edge]) \<and>
   curved_attrs ''geometry'' = Some (PLineString [(5, 1), (6, 2), (7, 3)]) \<and>
   (\<exists>u v key d. (u, v, key, d) \<in> set (g_edges (one_edge_graph curved_attrs)) \<and>
      (case d ''geometry'' of
         Some g \<Rightarrow>
           (\<exists>coords. g = PLineString coords \<and>
              [[PFloat 1, PFloat 5], [PFloat 2, PFloat 6], [PFloat 3, PFloat 7]] =
                map (\<lambda>(lon, lat). [PFloat lat, PFloat lon]) coords)
       | None \<Rightarrow> False)) \<and>
   graph_to_json (one_edge_graph Map.empty) None = Inr (link_doc plain_segment [plain_full_edge]) \<and>
   geometry plain_segment = [[PFloat 1, PFloat 5], [PFloat 3, PFloat 7]] \<and>
   map_of link_nodes 1 = Some [''y'' \<mapsto> PFloat 1, ''x'' \<mapsto> PFloat 5] \<and>
   map_of link_nodes 2 = Some [''y'' \<mapsto> PFloat 3, ''x'' \<mapsto> PFloat 7]"
proof -
  let ?s = "plain_segment\<lparr>geometry := [[PFloat 1, PFloat 5], [PFloat 2, PFloat 6], [PFloat 3, PFloat 7]]\<rparr>"
  have m: "?s \<in> set (segments (link_doc ?s [plain_full_edge]))" by (simp add: link_doc_def)
  have c: "curved_attrs ''geometry'' = Some (PLineString [(5, 1), (6, 2), (7, 3)])"
    by (simp add: curved_attrs_def)
  from segment_geometry[OF one_edge_exports(1) m]
  have "\<exists>u v key d. (u, v, key, d) \<in> set (g_edges (one_edge_graph curved_attrs)) \<and>
      (case d ''geometry'' of
         Some g \<Rightarrow>
           (\<exists>coords. g = PLineString coords \<and>
              [[PFloat 1, PFloat 5], [PFloat 2, PFloat 6], [PFloat 3, PFloat 7]] =
                map (\<lambda>(lon, lat). [PFloat lat, PFloat lon]) coords)
       | None \<Rightarrow> False)"
    by (simp add: one_edge_graph_def c)
  moreover have "geometry plain_segment = [[PFloat 1, PFloat 5], [PFloat 3, PFloat 7]]"
    by (simp add: plain_segment_def)
  moreover have "map_of link_nodes 1 = Some [''y'' \<mapsto> PFloat 1, ''x'' \<mapsto> PFloat 5]"
    "map_of link_nodes 2 = Some [''y'' \<mapsto> PFloat 3, ''x'' \<mapsto> PFloat 7]"
    by (simp_all add: link_nodes_def)
  ultimately show ?thesis using one_edge_exports(1) one_edge_exports(3) c by blast
qed

text \<open>
  Claim C3 as stated fails for an edge whose geometry is a line string without
  coordinates (shapely's empty \<^verbatim>\<open>LineString()\<close>): the emitted geometry is empty.
\<close>

theorem geometry_empty_for_empty_line:
  "graph_to_json (one_edge_graph empty_line_attrs) None =
     Inr (link_doc (plain_segment\<lparr>geometry := []\<rparr>) [plain_full_edge]) \<and>
   map geometry (segments (link_doc (plain_segment\<lparr>geometry := []\<rparr>) [plain_full_edge])) = [[]]"
  by (simp add: one_edge_exports) (simp add: link_doc_def)

section \<open>Totality of the edge transform\<close>

text \<open>
  Claim C7.  For two nodes without coordinate attributes joined by an edge without
  geometry, the node projection yields the default coordinates 0.0, but the edge
  transform raises \<^verbatim>\<open>KeyError\<close> (source line 241) and no document is returned.
\<close>

theorem missing_coordinates_raise:
  "project_nodes bare_graph =
     [\<lparr> n_id = ''node_1'', n_lat = PFloat 0, n_lon = PFloat 0 \<rparr>,
      \<lparr> n_id = ''node_2'', n_lat = PFloat 0, n_lon = PFloat 0 \<rparr>] \<and>
   make_segment bare_graph (1, 2, 0, Map.empty) = Inl KeyError \<and>
   graph_to_json bare_graph None = Inl KeyError"
  by (simp add: bare_graph_def eval_defs)

section \<open>Starting location\<close>



section \<open>Failure semantics of the command line program\<close>

text \<open>
  Claim C8, as amended.  A run of the program ends in one of three ways: exit status 1
  with the file system unchanged; exit status 1 with the output path holding a proper
  prefix of the document, which happens exactly when the output file could be opened
  and \<^verbatim>\<open>json.dump\<close> then raised; or exit status 0 with the output path holding the
  complete document.  A non-empty bbox argument that is not exactly 4 comma-separated
  floats (such as "1,2,3"), a missing input file, an exception while loading or
  converting the graphs, and a failure to open the output file each end the run with
  exit status 1 and the file system unchanged.
\<close>

theorem main_failure_semantics:
  "(main env args fs = (1, fs) \<or>
    (\<exists>doc. \<not> doc_encodable doc \<and> fs (osm_file args) \<noteq> None \<and> can_open_w env (output_json args) \<and>
       main env args fs = (1, fs(output_json args \<mapsto> JsonPrefix doc))) \<or>
    (\<exists>doc. doc_encodable doc \<and> fs (osm_file args) \<noteq> None \<and> can_open_w env (output_json args) \<and>
       main env args fs = (0, fs(output_json args \<mapsto> JsonText doc)))) \<and>
   (\<forall>s. bbox_opt args = Some s \<and> s \<noteq> [] \<and>
        \<not> (length (split_on CHR '','' s) = 4 \<and>
           (\<forall>p\<in>set (split_on CHR '','' s). py_float env p \<noteq> None)) \<longrightarrow>
      main env args fs = (1, fs)) \<and>
   (bbox_opt args = Some ''1,2,3'' \<longrightarrow> main env args fs = (1, fs)) \<and>
   (fs (osm_file args) = None \<longrightarrow> main env args fs = (1, fs)) \<and>
   (\<forall>bbox err. parse_bbox (py_float env) (bbox_opt args) = Inr bbox \<and>
        load_osm_graph env (osm_file args) bbox = Inl err \<longrightarrow>
      main env args fs = (1, fs)) \<and>
   (\<forall>bbox G_simplified G_full err. parse_bbox (py_float env) (bbox_opt args) = Inr bbox \<and>
        load_osm_graph env (osm_file args) bbox = Inr (G_simplified, G_full) \<and>
        graph_to_json G_simplified (Some G_full) = Inl err \<longrightarrow>
      main env args fs = (1, fs)) \<and>
   (\<not> can_open_w env (output_json args) \<longrightarrow> main env args fs = (1, fs)) \<and>
   (\<forall>bbox G_simplified G_full doc. parse_bbox (py_float env) (bbox_opt args) = Inr bbox \<and>
        fs (osm_file args) \<noteq> None \<and>
        load_osm_graph env (osm_file args) bbox = Inr (G_simplified, G_full) \<and>
        graph_to_json G_simplified (Some G_full) = Inr doc \<and>
        can_open_w env (output_json args) \<and> \<not> doc_encodable doc \<longrightarrow>
      main env args fs = (1, fs(output_json args \<mapsto> JsonPrefix doc)))"
proof -
  have bad: "main env args fs = (1, fs)"
    if "bbox_opt args = Some s" "s \<noteq> []"
      "\<not> (length (split_on CHR '','' s) = 4 \<and>
          (\<forall>p\<in>set (split_on CHR '','' s). py_float env p \<noteq> None))" for s
  proof -
    from that(2,3) obtain err where "parse_bbox (py_float env) (Some s) = Inl err"
      using parse_bbox_error_iff[of "py_float env" s] by blast
    then show ?thesis by (simp add: main_def that(1))
  qed
  have three: "main env args fs = (1, fs)" if "bbox_opt args = Some ''1,2,3''"
  proof -
    obtain err where "parse_bbox (py_float env) (Some ''1,2,3'') = Inl err"
      using parse_bbox_three by blast
    then show ?thesis by (simp add: main_def that)
  qed
  have rest: "fs (osm_file args) = None \<longrightarrow> main env args fs = (1, fs)"
    "\<forall>bbox err. parse_bbox (py_float env) (bbox_opt args) = Inr bbox \<and>
        load_osm_graph env (osm_file args) bbox = Inl err \<longrightarrow>
      main env args fs = (1, fs)"
    "\<forall>bbox G_simplified G_full err. parse_bbox (py_float env) (bbox_opt args) = Inr bbox \<and>
        load_osm_graph env (osm_file args) bbox = Inr (G_simplified, G_full) \<and>
        graph_to_json G_simplified (Some G_full) = Inl err \<longrightarrow>
      main env args fs = (1, fs)"
    "\<not> can_open_w env (output_json args) \<longrightarrow> main env args fs = (1, fs)"
    "\<forall>bbox G_simplified G_full doc. parse_bbox (py_float env) (bbox_opt args) = Inr bbox \<and>
        fs (osm_file args) \<noteq> None \<and>
        load_osm_graph env (osm_file args) bbox = Inr (G_simplified, G_full) \<and>
        graph_to_json G_simplified (Some G_full) = Inr doc \<and>
        can_open_w env (output_json args) \<and> \<not> doc_encodable doc \<longrightarrow>
      main env args fs = (1, fs(output_json args \<mapsto> JsonPrefix doc))"
    by (auto simp: main_def split: sum.splits prod.splits)
  from main_cases[of env args fs] bad three rest show ?thesis by blast
qed

theorem main_failure_semantics_witness:
  "bbox_opt (example_args\<lparr>bbox_opt := Some ''1,2,3''\<rparr>) = Some ''1,2,3'' \<and>
   main example_env (example_args\<lparr>bbox_opt := Some ''1,2,3''\<rparr>) example_fs = (1, example_fs) \<and>
   example_fs (osm_file (example_args\<lparr>osm_file := ''none.osm''\<rparr>)) = None \<and>
   main example_env (example_args\<lparr>osm_file := ''none.osm''\<rparr>) example_fs = (1, example_fs) \<and>
   main example_env example_args example_fs =
     (1, example_fs(''out.json'' \<mapsto>
           JsonPrefix (link_doc (plain_segment\<lparr>osmWayIds := [PObject ''set'']\<rparr>) [plain_full_edge])))"
proof -
  have a: "bbox_opt (example_args\<lparr>bbox_opt := Some ''1,2,3''\<rparr>) = Some ''1,2,3''" by simp
  have b: "example_fs (osm_file (example_args\<lparr>osm_file := ''none.osm''\<rparr>)) = None"
    by (simp add: example_fs_def)
  from main_failure_semantics[of example_env "example_args\<lparr>bbox_opt := Some ''1,2,3''\<rparr>" example_fs] a
  have c: "main example_env (example_args\<lparr>bbox_opt := Some ''1,2,3''\<rparr>) example_fs = (1, example_fs)"
    by blast
  from main_failure_semantics[of example_env "example_args\<lparr>osm_file := ''none.osm''\<rparr>" example_fs] b
  have d: "main example_env (example_args\<lparr>osm_file := ''none.osm''\<rparr>) example_fs = (1, example_fs)"
    by blast
  from a b c d example_main show ?thesis by blast
qed

text \<open>
  Claim C8 as stated fails when serialisation raises: the input file exists, the run
  ends with exit status 1, and the output path, absent before, holds a partial file.
\<close>

theorem failed_run_leaves_partial_output:
  "example_fs ''out.json'' = None \<and>
   fst (main example_env example_args example_fs) = 1 \<and>
   snd (main example_env example_args example_fs) ''out.json'' =
     Some (JsonPrefix (link_doc (plain_segment\<lparr>osmWayIds := [PObject ''set'']\<rparr>) [plain_full_edge]))"
  by (simp add: example_main) (simp add: example_fs_def)


end
